theory Spec2Isabelle
  imports Main
begin
section \<open>Contract onboarding service (src/services/contractService.ts)\<close>

text \<open>
  A shallow embedding of the class \<open>ContractService\<close>: the state extraction
  \<open>getStatesFromSourceCode\<close>, the event extraction \<open>getEventsFromABI\<close>, the two
  Etherscan readers, the batch operation \<open>addContracts\<close> and the promise returned by
  \<open>runBackfillService\<close>.  Exceptions are values of type \<open>error\<close>; a function that may
  throw returns \<open>error + 'a\<close> with \<open>Inl\<close> for the exception.
\<close>

subsection \<open>Exceptions\<close>

datatype error =
    Error string    \<comment> \<open>\<open>throw new Error(msg)\<close> in the service itself\<close>
  | TypeError       \<comment> \<open>the runtime's TypeError on a property of \<open>undefined\<close>\<close>
  | Thrown string   \<comment> \<open>an exception raised inside a collaborator\<close>

subsection \<open>The parsed source tree\<close>

text \<open>
  The part of the parser's tree that the service reads.  The length of an array type is
  an expression node of the tree; a number literal holds its digits as a string.
\<close>

datatype typeName =
    ElementaryTypeName string
  | UserDefinedTypeName string
  | Mapping typeName typeName
  | ArrayTypeName typeName "string option"

record variableDeclaration =
  varName :: string
  varTypeName :: typeName
  isDeclaredConst :: bool
  isImmutable :: bool

datatype subNode =
    StateVariableDeclaration "variableDeclaration list"
  | StructDefinition string "(string \<times> typeName) list"
  | OtherSubNode string

datatype node =
    ContractDefinition string "subNode list"
  | OtherNode string

record sourceUnit =
  children :: "node list option"

fun isContractDefinition :: "node \<Rightarrow> bool" where
  "isContractDefinition (ContractDefinition _ _) = True"
| "isContractDefinition (OtherNode _) = False"

fun subNodes :: "node \<Rightarrow> subNode list" where
  "subNodes (ContractDefinition _ ns) = ns"
| "subNodes (OtherNode _) = []"

fun isStateVariableDeclaration :: "subNode \<Rightarrow> bool" where
  "isStateVariableDeclaration (StateVariableDeclaration _) = True"
| "isStateVariableDeclaration _ = False"

fun isStructDefinition :: "subNode \<Rightarrow> bool" where
  "isStructDefinition (StructDefinition _ _) = True"
| "isStructDefinition _ = False"

fun variables :: "subNode \<Rightarrow> variableDeclaration list" where
  "variables (StateVariableDeclaration vs) = vs"
| "variables _ = []"

text \<open>\<open>item.variables[0]?.name\<close> and \<open>item.variables[0]?.typeName\<close>.\<close>

definition firstName :: "subNode \<Rightarrow> string option" where
  "firstName item = (case variables item of [] \<Rightarrow> None | v # _ \<Rightarrow> Some (varName v))"

definition firstTypeName :: "subNode \<Rightarrow> typeName option" where
  "firstTypeName item = (case variables item of [] \<Rightarrow> None | v # _ \<Rightarrow> Some (varTypeName v))"

subsection \<open>getStatesFromSourceCode\<close>

text \<open>The object literal built for every state variable: \<open>{ slot, type, variable }\<close>.\<close>

record state =
  slot :: nat
  type :: string
  variable :: "string option"

text \<open>
  \<open>structureToSignatureType\<close> is imported from \<open>./dataTypeParser\<close>; the service calls
  it with the variable's name, its type and the struct definitions of the contract.
  The parser (\<open>parser.parse(sourceCode, {tolerant: true})\<close>) is a library.  Both are
  parameters of the embedding.
\<close>

type_synonym signatureBuilder =
  "string option \<Rightarrow> typeName option \<Rightarrow> subNode list \<Rightarrow> error + string"

type_synonym sourceParser = "string \<Rightarrow> error + sourceUnit"

text \<open>
  \<open>states?.map((item, slot) => ...)\<close>: the callback runs on the items in order, the
  second argument is the index of the item in \<open>states\<close>; an exception of the callback
  ends the map.
\<close>

fun statesMap :: "signatureBuilder \<Rightarrow> subNode list \<Rightarrow> nat \<Rightarrow> subNode list \<Rightarrow> error + state list" where
  "statesMap sig structs i [] = Inr []"
| "statesMap sig structs i (item # rest) =
     (case sig (firstName item) (firstTypeName item) structs of
        Inl e \<Rightarrow> Inl e
      | Inr t \<Rightarrow>
          (case statesMap sig structs (Suc i) rest of
             Inl e \<Rightarrow> Inl e
           | Inr l \<Rightarrow> Inr (\<lparr>slot = i, type = t, variable = firstName item\<rparr> # l)))"

text \<open>The loop over the contract definitions, \<open>list = list.concat(...)\<close>.\<close>

fun contractsLoop :: "signatureBuilder \<Rightarrow> state list \<Rightarrow> node list \<Rightarrow> error + state list" where
  "contractsLoop sig list [] = Inr list"
| "contractsLoop sig list (contractDefinition # rest) =
     (let states = filter isStateVariableDeclaration (subNodes contractDefinition);
          structs = filter isStructDefinition (subNodes contractDefinition)
      in case statesMap sig structs 0 states of
           Inl e \<Rightarrow> Inl e
         | Inr l \<Rightarrow> contractsLoop sig (list @ l) rest)"

text \<open>
  \<open>ast?.children?.filter(...)\<close> is \<open>undefined\<close> when the tree has no children, and
  \<open>for (... of undefined)\<close> throws a TypeError.
\<close>

definition getStatesFromSourceCode :: "sourceParser \<Rightarrow> signatureBuilder \<Rightarrow> string \<Rightarrow> error + state list" where
  "getStatesFromSourceCode parse sig sourceCode =
     (case parse sourceCode of
        Inl e \<Rightarrow> Inl e
      | Inr ast \<Rightarrow>
          (case children ast of
             None \<Rightarrow> Inl TypeError
           | Some ch \<Rightarrow> contractsLoop sig [] (filter isContractDefinition ch)))"

subsection \<open>getEventsFromABI\<close>

record abiItem =
  itemType :: string
  itemName :: string

text \<open>The ABI is \<open>null\<close> when Etherscan gave none (\<open>None\<close>).\<close>

definition getEventsFromABI :: "abiItem list option \<Rightarrow> string list" where
  "getEventsFromABI abi =
     (case abi of
        None \<Rightarrow> []
      | Some items \<Rightarrow>
          (let events = filter (\<lambda>item. itemType item = ''event'') items
           in map (\<lambda>item. itemName item) events))"

subsection \<open>The Etherscan readers\<close>

text \<open>
  The JSON documents the two readers receive.  \<open>fetch\<close> and \<open>response.json()\<close> are
  collaborators acting on the outside world, of type \<open>'w\<close>: each takes the world and
  returns its result, or the exception it raised, and the world it left.
\<close>

record contractEntry =
  ContractName :: string
  ABI :: "string option"
  SourceCode :: string

record sourceResponse =
  sourceResult :: "contractEntry option list option"

record txEntry =
  blockNumber :: "nat option"

record txlistResponse =
  txResult :: "txEntry option list option"

record contractData =
  dataName :: string
  dataAbi :: "abiItem list option"
  dataSourceCode :: string

record contractInput =
  address :: string
  startingBlock :: nat
  name :: string
  abi :: "abiItem list option"
  events :: "nat list"

text \<open>
  \<open>getConnection().getCustomRepository(R)\<close> looks a repository up in the connection
  the process holds; it throws when there is no connection.  The repository it returns
  is represented by its \<open>add\<close> method (\<open>eventAdd\<close>, \<open>contractAdd\<close>).
\<close>

datatype repositoryName = EventRepository | ContractRepository

record 'w collaborators =
  getCustomRepository :: "repositoryName \<Rightarrow> 'w \<Rightarrow> error + unit"
  getsourcecode :: "string \<Rightarrow> string \<Rightarrow> 'w \<Rightarrow> (error + sourceResponse) \<times> 'w"
  txlist :: "string \<Rightarrow> string \<Rightarrow> 'w \<Rightarrow> (error + txlistResponse) \<times> 'w"
  jsonParse :: "string \<Rightarrow> error + abiItem list option"
  parseSource :: sourceParser
  signatureType :: signatureBuilder
  eventAdd :: "string \<Rightarrow> 'w \<Rightarrow> (error + nat) \<times> 'w"
  contractAdd :: "contractInput \<Rightarrow> 'w \<Rightarrow> (error + nat) \<times> 'w"

text \<open>
  \<open>getStartingBlockFromEtherscan\<close>.  A block number is falsy when it is missing or
  \<open>0\<close>.
\<close>

definition startingBlockOf :: "txlistResponse \<Rightarrow> error + nat" where
  "startingBlockOf data =
     (case txResult data of
        None \<Rightarrow> Inl (Error ''Oops, something wrong with etherscan API'')
      | Some [] \<Rightarrow> Inl (Error ''Oops, something wrong with etherscan API'')
      | Some (firstTx # _) \<Rightarrow>
          (case firstTx of
             None \<Rightarrow> Inl (Error ''Wrong contract address'')
           | Some tx \<Rightarrow>
               (case blockNumber tx of
                  None \<Rightarrow> Inl (Error ''Wrong contract address'')
                | Some b \<Rightarrow> if b = 0 then Inl (Error ''Wrong contract address'') else Inr b)))"

definition getStartingBlockFromEtherscan ::
  "'w collaborators \<Rightarrow> string \<Rightarrow> string \<Rightarrow> 'w \<Rightarrow> (error + nat) \<times> 'w" where
  "getStartingBlockFromEtherscan env apiKey addr w =
     (case txlist env apiKey addr w of
        (Inl e, w') \<Rightarrow> (Inl e, w')
      | (Inr data, w') \<Rightarrow> (startingBlockOf data, w'))"

text \<open>
  \<open>getContractDataFromEtherscan\<close>.  \<open>console.log(data.result.length)\<close> comes before
  the test of \<open>data.result\<close>, so a missing result is a TypeError.  The ABI is parsed
  when the string is truthy (present and not empty).
\<close>

definition contractDataOf :: "(string \<Rightarrow> error + abiItem list option) \<Rightarrow> sourceResponse \<Rightarrow> error + contractData" where
  "contractDataOf jparse data =
     (case sourceResult data of
        None \<Rightarrow> Inl TypeError
      | Some [] \<Rightarrow> Inl (Error ''Oops'')
      | Some (contract # _) \<Rightarrow>
          (case contract of
             None \<Rightarrow> Inl (Error ''Wrong contract address'')
           | Some c \<Rightarrow>
               (case (case ABI c of
                        None \<Rightarrow> Inr None
                      | Some s \<Rightarrow> if s = [] then Inr None else jparse s) of
                  Inl e \<Rightarrow> Inl e
                | Inr a \<Rightarrow>
                    Inr \<lparr>dataName = ContractName c, dataAbi = a, dataSourceCode = SourceCode c\<rparr>)))"

definition getContractDataFromEtherscan ::
  "'w collaborators \<Rightarrow> string \<Rightarrow> string \<Rightarrow> 'w \<Rightarrow> (error + contractData) \<times> 'w" where
  "getContractDataFromEtherscan env apiKey addr w =
     (case getsourcecode env apiKey addr w of
        (Inl e, w') \<Rightarrow> (Inl e, w')
      | (Inr data, w') \<Rightarrow> (contractDataOf (jsonParse env) data, w'))"

subsection \<open>addContracts\<close>

text \<open>
  The inner loop \<open>for (const name of eventNames)\<close>: every name is added to the event
  repository and the identifier it returns is pushed on \<open>eventIds\<close>.
\<close>

fun addEvents :: "'w collaborators \<Rightarrow> string list \<Rightarrow> nat list \<Rightarrow> 'w \<Rightarrow> (error + nat list) \<times> 'w" where
  "addEvents env [] eventIds w = (Inr eventIds, w)"
| "addEvents env (n # ns) eventIds w =
     (case eventAdd env n w of
        (Inl e, w') \<Rightarrow> (Inl e, w')
      | (Inr eventId, w') \<Rightarrow> addEvents env ns (eventIds @ [eventId]) w')"

text \<open>
  The body of the \<open>try\<close> block for one address: the identifier of the stored contract,
  or the exception that the \<open>catch\<close> clause receives.
\<close>

definition tryAddress :: "'w collaborators \<Rightarrow> string \<Rightarrow> string \<Rightarrow> 'w \<Rightarrow> (error + nat) \<times> 'w" where
  "tryAddress env apiKey addr w =
     (case getContractDataFromEtherscan env apiKey addr w of
        (Inl e, w1) \<Rightarrow> (Inl e, w1)
      | (Inr data, w1) \<Rightarrow>
     (case getStartingBlockFromEtherscan env apiKey addr w1 of
        (Inl e, w2) \<Rightarrow> (Inl e, w2)
      | (Inr block, w2) \<Rightarrow>
     (case getStatesFromSourceCode (parseSource env) (signatureType env) (dataSourceCode data) of
        Inl e \<Rightarrow> (Inl e, w2)
      | Inr stateObjects \<Rightarrow>
     (case addEvents env (getEventsFromABI (dataAbi data)) [] w2 of
        (Inl e, w3) \<Rightarrow> (Inl e, w3)
      | (Inr eventIds, w3) \<Rightarrow>
          contractAdd env
            \<lparr>address = addr, startingBlock = block, name = dataName data,
             abi = dataAbi data, events = eventIds\<rparr> w3))))"

record batch =
  success :: "string list"
  fail :: "string list"
  contractIds :: "nat list"

text \<open>The loop \<open>for (const address of addresses)\<close> with its \<open>try\<close>/\<open>catch\<close>.\<close>

fun addressLoop :: "'w collaborators \<Rightarrow> string \<Rightarrow> string list \<Rightarrow> batch \<Rightarrow> 'w \<Rightarrow> batch \<times> 'w" where
  "addressLoop env apiKey [] b w = (b, w)"
| "addressLoop env apiKey (addr # rest) b w =
     (case tryAddress env apiKey addr w of
        (Inr contractId, w') \<Rightarrow>
          addressLoop env apiKey rest
            (b\<lparr>contractIds := contractIds b @ [contractId], success := success b @ [addr]\<rparr>) w'
      | (Inl e, w') \<Rightarrow>
          addressLoop env apiKey rest (b\<lparr>fail := fail b @ [addr]\<rparr>) w')"

text \<open>
  What the caller of \<open>addContracts\<close> observes: the two returned lists, the calls of
  \<open>runBackfillService\<close> made, each with its argument, and the world left behind.
\<close>

record 'w batchResult =
  resSuccess :: "string list"
  resFail :: "string list"
  backfillCalls :: "nat list list"
  world :: 'w

text \<open>
  \<open>addContracts\<close>.  The event repository and the contract repository are looked up
  first, before the loop and outside its \<open>try\<close>: an exception of a lookup leaves the
  method (\<open>Inl\<close>).  Then come the loop, the call of \<open>runBackfillService\<close> when
  \<open>contractIds\<close> is not empty, and the returned object.  The call of
  \<open>runBackfillService\<close> is not awaited: its promise has no part in the result.
\<close>

definition addContracts :: "'w collaborators \<Rightarrow> string \<Rightarrow> string list \<Rightarrow> 'w \<Rightarrow> error + 'w batchResult" where
  "addContracts env apiKey addresses w =
     (case getCustomRepository env EventRepository w of
        Inl e \<Rightarrow> Inl e
      | Inr eventRepository \<Rightarrow>
     (case getCustomRepository env ContractRepository w of
        Inl e \<Rightarrow> Inl e
      | Inr contractRepository \<Rightarrow>
     (case addressLoop env apiKey addresses \<lparr>success = [], fail = [], contractIds = []\<rparr> w of
        (b, w') \<Rightarrow>
          Inr \<lparr>resSuccess = success b, resFail = fail b,
               backfillCalls = (if length (contractIds b) \<noteq> 0 then [contractIds b] else []),
               world = w'\<rparr>)))"

subsection \<open>runBackfillService\<close>

text \<open>
  The promise returned by \<open>runBackfillService\<close>, driven by the events of the spawned
  process.  The exit code of \<open>close\<close> is a number, or \<open>null\<close> when a signal ended the
  process.  A promise is settled by the first call of \<open>resolve\<close> or \<open>reject\<close>; later
  calls have no effect.
\<close>

datatype processEvent =
    StdoutData string
  | StderrData string
  | Close "int option"

datatype promise =
    Pending
  | Resolved "int option"
  | Rejected "int option"

record backfillState =
  settled :: promise
  logged :: "string list"

definition settle :: "promise \<Rightarrow> promise \<Rightarrow> promise" where
  "settle p outcome = (case p of Pending \<Rightarrow> outcome | _ \<Rightarrow> p)"

fun onEvent :: "backfillState \<Rightarrow> processEvent \<Rightarrow> backfillState" where
  "onEvent s (StdoutData d) = s\<lparr>logged := logged s @ [''stdout: '' @ d]\<rparr>"
| "onEvent s (StderrData d) = s\<lparr>logged := logged s @ [''stderr: '' @ d]\<rparr>"
| "onEvent s (Close code) =
     (if code = Some 0 then s\<lparr>settled := settle (settled s) (Resolved code)\<rparr>
      else s\<lparr>settled := settle (settled s) (Rejected code)\<rparr>)"

definition runBackfillService :: "processEvent list \<Rightarrow> backfillState" where
  "runBackfillService evs = foldl onEvent \<lparr>settled = Pending, logged = []\<rparr> evs"

subsection \<open>Parts taken from the specification\<close>

text \<open>
  Modelled from the spec: \<open>structureToSignatureType\<close> of \<open>./dataTypeParser\<close>, which is
  not among the sources.  The spec describes the signature as "a canonical signature
  string built by walking the TypeRef tree (e.g., a mapping renders as mapping(K=>V), a
  struct renders as an ordered tuple of its field signatures)"; a struct reference that
  resolves to no struct definition fails with \<open>UnknownType\<close>, and a struct that contains
  itself fails with \<open>CyclicStruct\<close>.  The theorems on the service take the signature
  builder as a parameter; this definition instantiates them at concrete inputs.
\<close>

fun lookupStruct :: "string \<Rightarrow> subNode list \<Rightarrow> (string \<times> typeName) list option" where
  "lookupStruct n [] = None"
| "lookupStruct n (StructDefinition m members # rest) =
     (if m = n then Some members else lookupStruct n rest)"
| "lookupStruct n (_ # rest) = lookupStruct n rest"

fun joinComma :: "string list \<Rightarrow> string" where
  "joinComma [] = []"
| "joinComma [s] = s"
| "joinComma (s # rest) = s @ '','' @ joinComma rest"

fun signatureOf :: "nat \<Rightarrow> subNode list \<Rightarrow> string list \<Rightarrow> typeName \<Rightarrow> error + string"
  and fieldSignatures :: "nat \<Rightarrow> subNode list \<Rightarrow> string list \<Rightarrow> (string \<times> typeName) list \<Rightarrow> error + string list"
where
  "signatureOf fuel structs path (ElementaryTypeName n) = Inr n"
| "signatureOf fuel structs path (Mapping k v) =
     (case signatureOf fuel structs path k of
        Inl e \<Rightarrow> Inl e
      | Inr ks \<Rightarrow>
          (case signatureOf fuel structs path v of
             Inl e \<Rightarrow> Inl e
           | Inr vs \<Rightarrow> Inr (''mapping('' @ ks @ ''=>'' @ vs @ '')'')))"
| "signatureOf fuel structs path (ArrayTypeName b len) =
     (case signatureOf fuel structs path b of
        Inl e \<Rightarrow> Inl e
      | Inr bs \<Rightarrow> Inr (bs @ ''['' @ (case len of None \<Rightarrow> [] | Some l \<Rightarrow> l) @ '']''))"
| "signatureOf fuel structs path (UserDefinedTypeName n) =
     (if n \<in> set path then Inl (Error ''CyclicStruct'')
      else case lookupStruct n structs of
             None \<Rightarrow> Inl (Error ''UnknownType'')
           | Some members \<Rightarrow>
               (case fuel of
                  0 \<Rightarrow> Inl (Error ''CyclicStruct'')
                | Suc f \<Rightarrow>
                    (case fieldSignatures f structs (n # path) members of
                       Inl e \<Rightarrow> Inl e
                     | Inr sigs \<Rightarrow> Inr (''('' @ joinComma sigs @ '')''))))"
| "fieldSignatures fuel structs path [] = Inr []"
| "fieldSignatures fuel structs path (field # rest) =
     (case signatureOf fuel structs path (snd field) of
        Inl e \<Rightarrow> Inl e
      | Inr s \<Rightarrow>
          (case fieldSignatures fuel structs path rest of
             Inl e \<Rightarrow> Inl e
           | Inr sigs \<Rightarrow> Inr (s # sigs)))"

definition structureToSignatureType :: signatureBuilder where
  "structureToSignatureType nm ty structs =
     (case ty of
        None \<Rightarrow> Inl TypeError
      | Some t \<Rightarrow> signatureOf (length structs) structs [] t)"

text \<open>
  Modelled from the spec: the byte width of an elementary type, "boolean = 1,
  integer/bytesN = width in bytes, address = 20".  The code under verification computes
  no width; the function serves to say which declarations the spec's packing rule would
  place together.
\<close>

definition digitOf :: "char \<Rightarrow> nat option" where
  "digitOf c = map_of (zip ''0123456789'' [0, 1, 2, 3, 4, 5, 6, 7, 8, 9]) c"

fun decimal :: "nat \<Rightarrow> string \<Rightarrow> nat option" where
  "decimal acc [] = Some acc"
| "decimal acc (c # cs) =
     (case digitOf c of None \<Rightarrow> None | Some d \<Rightarrow> decimal (10 * acc + d) cs)"

definition bitsToBytes :: "string \<Rightarrow> nat option" where
  "bitsToBytes s =
     (if s = [] then Some 32
      else case decimal 0 s of None \<Rightarrow> None | Some b \<Rightarrow> Some (b div 8))"

definition sizeOf :: "typeName \<Rightarrow> nat option" where
  "sizeOf t =
     (case t of
        ElementaryTypeName n \<Rightarrow>
          (if n = ''bool'' then Some 1
           else if n = ''address'' then Some 20
           else if take 4 n = ''uint'' then bitsToBytes (drop 4 n)
           else if take 3 n = ''int'' then bitsToBytes (drop 3 n)
           else if take 5 n = ''bytes'' \<and> drop 5 n \<noteq> [] then decimal 0 (drop 5 n)
           else None)
      | _ \<Rightarrow> None)"

text \<open>
  Modelled from the spec: the external collaborators.  "Metadata source (external):
  given an address, returns {name, abiDocument, sourceCode} or fails"; "Persistence
  (external): accepts a ResolvedContract and returns an opaque contractId; accepts an
  event name and returns an existing or newly created eventId".  The sample world below
  keeps the event registry and the stored contracts as lists, an identifier being a
  position; storing a contract whose address is already stored fails; the repositories
  are found when the process holds a connection.  It is used to run the service at
  concrete inputs.
\<close>

record sampleWorld =
  connected :: bool
  registry :: "string list"
  stored :: "contractInput list"
  served :: "(string \<times> contractEntry \<times> nat) list"

definition sampleGetCustomRepository :: "repositoryName \<Rightarrow> sampleWorld \<Rightarrow> error + unit" where
  "sampleGetCustomRepository r w =
     (if connected w then Inr () else Inl (Thrown ''ConnectionNotFoundError''))"

fun indexOf :: "string \<Rightarrow> string list \<Rightarrow> nat option" where
  "indexOf n [] = None"
| "indexOf n (m # ms) =
     (if m = n then Some 0 else case indexOf n ms of None \<Rightarrow> None | Some i \<Rightarrow> Some (Suc i))"

definition sampleEventAdd :: "string \<Rightarrow> sampleWorld \<Rightarrow> (error + nat) \<times> sampleWorld" where
  "sampleEventAdd n w =
     (case indexOf n (registry w) of
        Some i \<Rightarrow> (Inr i, w)
      | None \<Rightarrow> (Inr (length (registry w)), w\<lparr>registry := registry w @ [n]\<rparr>))"

definition sampleContractAdd :: "contractInput \<Rightarrow> sampleWorld \<Rightarrow> (error + nat) \<times> sampleWorld" where
  "sampleContractAdd c w =
     (if address c \<in> set (map address (stored w)) then (Inl (Thrown ''PersistenceError''), w)
      else (Inr (length (stored w)), w\<lparr>stored := stored w @ [c]\<rparr>))"

definition sampleGetsourcecode :: "string \<Rightarrow> string \<Rightarrow> sampleWorld \<Rightarrow> (error + sourceResponse) \<times> sampleWorld" where
  "sampleGetsourcecode apiKey addr w =
     (case map_of (served w) addr of
        None \<Rightarrow> (Inl (Thrown ''NotFound''), w)
      | Some (c, b) \<Rightarrow> (Inr \<lparr>sourceResult = Some [Some c]\<rparr>, w))"

definition sampleTxlist :: "string \<Rightarrow> string \<Rightarrow> sampleWorld \<Rightarrow> (error + txlistResponse) \<times> sampleWorld" where
  "sampleTxlist apiKey addr w =
     (case map_of (served w) addr of
        None \<Rightarrow> (Inl (Thrown ''NotFound''), w)
      | Some (c, b) \<Rightarrow> (Inr \<lparr>txResult = Some [Some \<lparr>blockNumber = Some b\<rparr>]\<rparr>, w))"

text \<open>
  A parser run whose result is the given tree, and a JSON reader that knows one
  document, the text
  \<^verbatim>\<open>[{"type":"event","name":"Transfer"},{"type":"event","name":"Transfer"},{"type":"function","name":"balanceOf"}]\<close>.
\<close>

definition quoted :: "string \<Rightarrow> string" where
  "quoted s = [CHR 0x22] @ s @ [CHR 0x22]"

definition abiEntryJson :: "string \<Rightarrow> string \<Rightarrow> string" where
  "abiEntryJson t n =
     ''{'' @ quoted ''type'' @ '':'' @ quoted t @ '','' @ quoted ''name'' @ '':'' @ quoted n @ ''}''"

definition sampleAbiJson :: string where
  "sampleAbiJson =
     ''['' @ abiEntryJson ''event'' ''Transfer'' @ '','' @ abiEntryJson ''event'' ''Transfer''
       @ '','' @ abiEntryJson ''function'' ''balanceOf'' @ '']''"

definition parsedAs :: "sourceUnit \<Rightarrow> sourceParser" where
  "parsedAs ast sourceCode = Inr ast"

definition sampleJsonParse :: "string \<Rightarrow> error + abiItem list option" where
  "sampleJsonParse s =
     (if s = sampleAbiJson then
        Inr (Some [\<lparr>itemType = ''event'', itemName = ''Transfer''\<rparr>,
                   \<lparr>itemType = ''event'', itemName = ''Transfer''\<rparr>,
                   \<lparr>itemType = ''function'', itemName = ''balanceOf''\<rparr>])
      else Inl (Thrown ''SyntaxError''))"

definition sampleEnv :: "sourceUnit \<Rightarrow> sampleWorld collaborators" where
  "sampleEnv ast =
     \<lparr>getCustomRepository = sampleGetCustomRepository,
      getsourcecode = sampleGetsourcecode, txlist = sampleTxlist,
      jsonParse = sampleJsonParse, parseSource = parsedAs ast,
      signatureType = structureToSignatureType,
      eventAdd = sampleEventAdd, contractAdd = sampleContractAdd\<rparr>"

subsection \<open>Notions used in the statements\<close>

text \<open>
  The state variable declarations and the struct definitions of a contract definition,
  as the loop of \<open>getStatesFromSourceCode\<close> filters them; the contract definitions of a
  tree; and the number of state variable declarations in a list of contracts, which is
  the position in the output where the next contract's assignments begin.
\<close>

definition declsOf :: "node \<Rightarrow> subNode list" where
  "declsOf c = filter isStateVariableDeclaration (subNodes c)"

definition structsOf :: "node \<Rightarrow> subNode list" where
  "structsOf c = filter isStructDefinition (subNodes c)"

definition contractsOf :: "sourceUnit \<Rightarrow> node list" where
  "contractsOf ast =
     (case children ast of None \<Rightarrow> [] | Some ch \<Rightarrow> filter isContractDefinition ch)"

definition declsBefore :: "node list \<Rightarrow> nat" where
  "declsBefore pre = length (concat (map declsOf pre))"

text \<open>
  The spec's packing law for two sequential elementary declarations of widths \<open>w1\<close> and
  \<open>w2\<close>, as far as the records of the service can express it: they have a slot and no
  byte offset.
\<close>

definition spec_packing_law :: "nat \<Rightarrow> nat \<Rightarrow> state \<Rightarrow> state \<Rightarrow> bool" where
  "spec_packing_law w1 w2 s1 s2 =
     (if w1 + w2 \<le> 32 then slot s2 = slot s1 else slot s2 = slot s1 + 1)"

subsection \<open>Sample documents\<close>

definition elementaryDecl :: "string \<Rightarrow> string \<Rightarrow> bool \<Rightarrow> subNode" where
  "elementaryDecl ty nm c =
     StateVariableDeclaration
       [\<lparr>varName = nm, varTypeName = ElementaryTypeName ty, isDeclaredConst = c,
         isImmutable = False\<rparr>]"

text \<open>\<^verbatim>\<open>contract C { uint8 a; uint8 b; }\<close>\<close>

definition twoSmallDecls :: sourceUnit where
  "twoSmallDecls =
     \<lparr>children = Some [ContractDefinition ''C''
        [elementaryDecl ''uint8'' ''a'' False, elementaryDecl ''uint8'' ''b'' False]]\<rparr>"

text \<open>\<^verbatim>\<open>contract C { uint256 constant LIMIT = 5; uint256 a; }\<close> and the same without the constant.\<close>

definition constantThenVariable :: sourceUnit where
  "constantThenVariable =
     \<lparr>children = Some [ContractDefinition ''C''
        [elementaryDecl ''uint256'' ''LIMIT'' True, elementaryDecl ''uint256'' ''a'' False]]\<rparr>"

definition variableAlone :: sourceUnit where
  "variableAlone =
     \<lparr>children = Some [ContractDefinition ''C'' [elementaryDecl ''uint256'' ''a'' False]]\<rparr>"

text \<open>
  \<^verbatim>\<open>contract A { uint256 a; } contract B { uint256 b; }\<close>; a contract whose struct
  contains itself through a dynamic array, without state variables; and the same contract
  with two state variables, the second of the struct's type.
\<close>

definition twoContracts :: sourceUnit where
  "twoContracts =
     \<lparr>children = Some [ContractDefinition ''A'' [elementaryDecl ''uint256'' ''a'' False],
                       ContractDefinition ''B'' [elementaryDecl ''uint256'' ''b'' False]]\<rparr>"

definition selfContaining :: sourceUnit where
  "selfContaining =
     \<lparr>children = Some [ContractDefinition ''Tree''
        [StructDefinition ''Node''
           [(''children'', ArrayTypeName (UserDefinedTypeName ''Node'') None)]]]\<rparr>"

definition selfContainingUsed :: sourceUnit where
  "selfContainingUsed =
     \<lparr>children = Some [ContractDefinition ''Tree''
        [StructDefinition ''Node''
           [(''children'', ArrayTypeName (UserDefinedTypeName ''Node'') None)],
         elementaryDecl ''uint256'' ''count'' False,
         StateVariableDeclaration
           [\<lparr>varName = ''root'', varTypeName = UserDefinedTypeName ''Node'',
             isDeclaredConst = False, isImmutable = False\<rparr>]]]\<rparr>"

subsection \<open>Notions used in the statements on the batch operation\<close>

text \<open>
  The result of the \<open>try\<close> block for every address of a batch, in order, each address
  being processed in the world its predecessors left; and the world after the batch.
\<close>

fun outcomes :: "'w collaborators \<Rightarrow> string \<Rightarrow> string list \<Rightarrow> 'w \<Rightarrow> (error + nat) list" where
  "outcomes env apiKey [] w = []"
| "outcomes env apiKey (addr # rest) w =
     (case tryAddress env apiKey addr w of (r, w') \<Rightarrow> r # outcomes env apiKey rest w')"

fun worldAfter :: "'w collaborators \<Rightarrow> string \<Rightarrow> string list \<Rightarrow> 'w \<Rightarrow> 'w" where
  "worldAfter env apiKey [] w = w"
| "worldAfter env apiKey (addr # rest) w =
     (case tryAddress env apiKey addr w of (r, w') \<Rightarrow> worldAfter env apiKey rest w')"

text \<open>
  The addresses whose \<open>try\<close> block completed, those whose \<open>try\<close> block threw, and the
  contract identifiers returned for the former.
\<close>

definition acceptedAddresses :: "string list \<Rightarrow> (error + nat) list \<Rightarrow> string list" where
  "acceptedAddresses addrs os = map fst (filter (\<lambda>p. \<not> isl (snd p)) (zip addrs os))"

definition rejectedAddresses :: "string list \<Rightarrow> (error + nat) list \<Rightarrow> string list" where
  "rejectedAddresses addrs os = map fst (filter (\<lambda>p. isl (snd p)) (zip addrs os))"

definition acceptedIds :: "(error + nat) list \<Rightarrow> nat list" where
  "acceptedIds os = map projr (filter (\<lambda>r. \<not> isl r) os)"

text \<open>
  The spec's wording of the event extraction: walk the ABI, and for every entry of kind
  "event" emit its name.
\<close>

fun eventNamesInOrder :: "abiItem list \<Rightarrow> string list" where
  "eventNamesInOrder [] = []"
| "eventNamesInOrder (entry # rest) =
     (if itemType entry = ''event'' then itemName entry # eventNamesInOrder rest
      else eventNamesInOrder rest)"

text \<open>The \<open>close\<close> events of a process.\<close>

fun isClose :: "processEvent \<Rightarrow> bool" where
  "isClose (Close _) = True"
| "isClose _ = False"

subsection \<open>Sample worlds\<close>

text \<open>
  The metadata source knows the addresses \<open>0xA\<close> and \<open>0xC\<close>.  In \<open>emptyWorld\<close> nothing
  is stored yet; in \<open>knownWorld\<close> a contract with the address \<open>0xA\<close> is stored already,
  so that storing it again fails; in \<open>offlineWorld\<close> the process holds no connection.
\<close>

definition sampleEntry :: contractEntry where
  "sampleEntry =
     \<lparr>ContractName = ''Token'', ABI = Some sampleAbiJson,
      SourceCode = ''contract C { uint8 a; uint8 b; }''\<rparr>"

definition emptyWorld :: sampleWorld where
  "emptyWorld =
     \<lparr>connected = True, registry = [], stored = [],
      served = [(''0xA'', sampleEntry, 100), (''0xC'', sampleEntry, 200)]\<rparr>"


definition knownWorld :: sampleWorld where
  "knownWorld =
     \<lparr>connected = True, registry = [],
      stored = [\<lparr>address = ''0xA'', startingBlock = 100, name = ''Token'', abi = None,
                 events = []\<rparr>],
      served = [(''0xA'', sampleEntry, 100), (''0xC'', sampleEntry, 200)]\<rparr>"

section \<open>The state extraction: what the loops compute\<close>


lemma statesMap_Inr_length:
  "statesMap sig structs i items = Inr l \<Longrightarrow> length l = length items"
  by (induction items arbitrary: i l) (auto split: sum.splits)

lemma statesMap_Inr_nth:
  "statesMap sig structs i items = Inr l \<Longrightarrow> k < length items \<Longrightarrow>
     slot (l ! k) = i + k \<and> variable (l ! k) = firstName (items ! k) \<and>
     sig (firstName (items ! k)) (firstTypeName (items ! k)) structs = Inr (type (l ! k))"
proof (induction items arbitrary: i l k)
  case Nil
  then show ?case by simp
next
  case (Cons item rest)
  from Cons.prems(1) obtain t l' where
    t: "sig (firstName item) (firstTypeName item) structs = Inr t" and
    l': "statesMap sig structs (Suc i) rest = Inr l'" and
    l: "l = \<lparr>slot = i, type = t, variable = firstName item\<rparr> # l'"
    by (auto split: sum.splits)
  show ?case
  proof (cases k)
    case 0
    then show ?thesis using t l by simp
  next
    case (Suc k')
    then have "k' < length rest" using Cons.prems(2) by simp
    from Cons.IH [OF l' this] show ?thesis using Suc l by simp
  qed
qed

lemma statesMap_Inl_source:
  "statesMap sig structs i items = Inl e \<Longrightarrow>
   \<exists>d \<in> set items. sig (firstName d) (firstTypeName d) structs = Inl e"
  by (induction items arbitrary: i) (auto split: sum.splits)

lemma statesMap_Inl_intro:
  "d \<in> set items \<Longrightarrow> sig (firstName d) (firstTypeName d) structs = Inl e \<Longrightarrow>
   \<exists>e'. statesMap sig structs i items = Inl e'"
proof (induction items arbitrary: i)
  case Nil
  then show ?case by simp
next
  case (Cons item rest)
  show ?case
  proof (cases "sig (firstName item) (firstTypeName item) structs")
    case (Inl e0)
    then show ?thesis by simp
  next
    case (Inr t)
    then have "d \<in> set rest" using Cons.prems by auto
    from Cons.IH [OF this Cons.prems(2), of "Suc i"] obtain e' where
      "statesMap sig structs (Suc i) rest = Inl e'" by blast
    then show ?thesis using Inr by simp
  qed
qed

lemma statesMap_Inl_iff:
  "(\<exists>e. statesMap sig structs i items = Inl e) \<longleftrightarrow>
   (\<exists>d \<in> set items. \<exists>e. sig (firstName d) (firstTypeName d) structs = Inl e)"
  using statesMap_Inl_source statesMap_Inl_intro by blast

lemma statesMap_cong_sig:
  "(\<And>d. d \<in> set items \<Longrightarrow> sig1 (firstName d) (firstTypeName d) structs = sig2 (firstName d) (firstTypeName d) structs)
   \<Longrightarrow> statesMap sig1 structs i items = statesMap sig2 structs i items"
  by (induction items arbitrary: i) (auto split: sum.splits)

lemma contractsLoop_Inr:
  "contractsLoop sig list cs = Inr out \<Longrightarrow>
   \<exists>segs. out = list @ concat segs \<and>
          list_all2 (\<lambda>c seg. statesMap sig (structsOf c) 0 (declsOf c) = Inr seg) cs segs"
proof (induction cs arbitrary: list out)
  case Nil
  then show ?case by simp
next
  case (Cons c cs)
  from Cons.prems obtain l where
    l: "statesMap sig (structsOf c) 0 (declsOf c) = Inr l" and
    r: "contractsLoop sig (list @ l) cs = Inr out"
    by (auto simp: Let_def declsOf_def structsOf_def split: sum.splits)
  from Cons.IH [OF r] obtain segs where
    "out = (list @ l) @ concat segs"
    "list_all2 (\<lambda>c seg. statesMap sig (structsOf c) 0 (declsOf c) = Inr seg) cs segs"
    by blast
  then have "out = list @ concat (l # segs) \<and>
     list_all2 (\<lambda>c seg. statesMap sig (structsOf c) 0 (declsOf c) = Inr seg) (c # cs) (l # segs)"
    using l by simp
  then show ?case by blast
qed

lemma contractsLoop_Inl_iff:
  "(\<exists>e. contractsLoop sig list cs = Inl e) \<longleftrightarrow>
   (\<exists>c \<in> set cs. \<exists>d \<in> set (declsOf c). \<exists>e. sig (firstName d) (firstTypeName d) (structsOf c) = Inl e)"
proof (induction cs arbitrary: list)
  case Nil
  then show ?case by simp
next
  case (Cons c cs)
  show ?case
  proof (cases "statesMap sig (structsOf c) 0 (declsOf c)")
    case (Inl e)
    then have "\<exists>e. statesMap sig (structsOf c) 0 (declsOf c) = Inl e" by blast
    then have "\<exists>d \<in> set (declsOf c). \<exists>e. sig (firstName d) (firstTypeName d) (structsOf c) = Inl e"
      using statesMap_Inl_iff [of sig "structsOf c" 0 "declsOf c"] by blast
    moreover have "contractsLoop sig list (c # cs) = Inl e"
      using Inl by (simp add: Let_def declsOf_def structsOf_def)
    ultimately show ?thesis by auto
  next
    case (Inr l)
    then have "\<not> (\<exists>e. statesMap sig (structsOf c) 0 (declsOf c) = Inl e)" by simp
    then have no: "\<not> (\<exists>d \<in> set (declsOf c). \<exists>e. sig (firstName d) (firstTypeName d) (structsOf c) = Inl e)"
      using statesMap_Inl_iff [of sig "structsOf c" 0 "declsOf c"] by blast
    have "contractsLoop sig list (c # cs) = contractsLoop sig (list @ l) cs"
      using Inr by (simp add: Let_def declsOf_def structsOf_def)
    then show ?thesis using Cons.IH [of "list @ l"] no by auto
  qed
qed

lemma contractsLoop_Inl_source:
  "contractsLoop sig list cs = Inl e \<Longrightarrow>
   \<exists>c \<in> set cs. \<exists>d \<in> set (declsOf c). sig (firstName d) (firstTypeName d) (structsOf c) = Inl e"
proof (induction cs arbitrary: list)
  case Nil
  then show ?case by simp
next
  case (Cons c cs)
  show ?case
  proof (cases "statesMap sig (structsOf c) 0 (declsOf c)")
    case (Inl e')
    then have "e' = e" using Cons.prems by (simp add: Let_def declsOf_def structsOf_def)
    then show ?thesis using statesMap_Inl_source [OF Inl] by auto
  next
    case (Inr l)
    then have "contractsLoop sig (list @ l) cs = Inl e"
      using Cons.prems by (simp add: Let_def declsOf_def structsOf_def)
    from Cons.IH [OF this] show ?thesis by auto
  qed
qed

lemma contractsLoop_cong_sig:
  "(\<And>c d. c \<in> set cs \<Longrightarrow> d \<in> set (declsOf c) \<Longrightarrow>
      sig1 (firstName d) (firstTypeName d) (structsOf c) = sig2 (firstName d) (firstTypeName d) (structsOf c))
   \<Longrightarrow> contractsLoop sig1 list cs = contractsLoop sig2 list cs"
proof (induction cs arbitrary: list)
  case Nil
  then show ?case by simp
next
  case (Cons c cs)
  have "statesMap sig1 (structsOf c) 0 (declsOf c) = statesMap sig2 (structsOf c) 0 (declsOf c)"
    by (rule statesMap_cong_sig) (simp add: Cons.prems)
  moreover have "\<And>l. contractsLoop sig1 l cs = contractsLoop sig2 l cs"
    by (rule Cons.IH) (simp add: Cons.prems)
  ultimately show ?case by (simp add: Let_def declsOf_def structsOf_def split: sum.splits)
qed

lemma segs_length:
  "list_all2 (\<lambda>c seg. statesMap sig (structsOf c) 0 (declsOf c) = Inr seg) cs segs \<Longrightarrow>
   length (concat segs) = declsBefore cs"
  unfolding declsBefore_def
  by (induction cs segs rule: list_all2_induct) (auto dest: statesMap_Inr_length)

lemma contractsLoop_at:
  assumes out: "contractsLoop sig [] (pre @ c # post) = Inr out"
    and k: "k < length (declsOf c)"
  shows "declsBefore pre + k < length out \<and>
         slot (out ! (declsBefore pre + k)) = k \<and>
         variable (out ! (declsBefore pre + k)) = firstName (declsOf c ! k) \<and>
         sig (firstName (declsOf c ! k)) (firstTypeName (declsOf c ! k)) (structsOf c)
           = Inr (type (out ! (declsBefore pre + k)))"
proof -
  let ?P = "\<lambda>c seg. statesMap sig (structsOf c) 0 (declsOf c) = Inr seg"
  from contractsLoop_Inr [OF out] obtain segs where
    o: "out = concat segs" and a: "list_all2 ?P (pre @ c # post) segs" by auto
  from a obtain s1 rest where s: "segs = s1 @ rest" "list_all2 ?P pre s1" "list_all2 ?P (c # post) rest"
    by (auto simp: list_all2_append1)
  then obtain seg s2 where r: "rest = seg # s2" "?P c seg" "list_all2 ?P post s2"
    by (auto simp: list_all2_Cons1)
  have len1: "length (concat s1) = declsBefore pre" using s(2) by (rule segs_length)
  have lens: "length seg = length (declsOf c)" using r(2) by (rule statesMap_Inr_length)
  have o': "out = concat s1 @ seg @ concat s2" using o s(1) r(1) by simp
  have nth: "out ! (declsBefore pre + k) = seg ! k"
    using o' len1 lens k by (simp add: nth_append)
  have "declsBefore pre + k < length out" using o' len1 lens k by simp
  moreover from statesMap_Inr_nth [OF r(2) k]
  have "slot (seg ! k) = k \<and> variable (seg ! k) = firstName (declsOf c ! k) \<and>
     sig (firstName (declsOf c ! k)) (firstTypeName (declsOf c ! k)) (structsOf c) = Inr (type (seg ! k))"
    by simp
  ultimately show ?thesis using nth by simp
qed

lemma contractsLoop_length:
  "contractsLoop sig [] cs = Inr out \<Longrightarrow> length out = declsBefore cs"
  using contractsLoop_Inr [of sig "[]" cs out] segs_length by auto

lemma statesMap_slots:
  "statesMap sig structs i items = Inr l \<Longrightarrow> map slot l = [i..<i + length items]"
proof (induction items arbitrary: i l)
  case Nil
  then show ?case by simp
next
  case (Cons item rest)
  from Cons.prems obtain t l' where
    l': "statesMap sig structs (Suc i) rest = Inr l'" and
    l: "l = \<lparr>slot = i, type = t, variable = firstName item\<rparr> # l'"
    by (auto split: sum.splits)
  have ih: "map slot l' = [Suc i..<Suc i + length rest]" by (rule Cons.IH [OF l'])
  have "[i..<i + length (item # rest)] = i # [Suc i..<Suc i + length rest]"
    by (simp add: upt_conv_Cons del: upt_Suc)
  with ih l show ?case by (simp del: upt_Suc)
qed

lemma getStates_parsed:
  "parse src = Inr ast \<Longrightarrow> children ast = Some ch \<Longrightarrow>
   getStatesFromSourceCode parse sig src = contractsLoop sig [] (contractsOf ast)"
  by (simp add: getStatesFromSourceCode_def contractsOf_def)

lemma sizeOf_uint8: "sizeOf (ElementaryTypeName ''uint8'') = Some 1"
  by (simp add: sizeOf_def bitsToBytes_def digitOf_def)

lemma sizeOf_uint256: "sizeOf (ElementaryTypeName ''uint256'') = Some 32"
  by (simp add: sizeOf_def bitsToBytes_def digitOf_def)

lemmas sample_simps = getStatesFromSourceCode_def parsedAs_def structureToSignatureType_def
  elementaryDecl_def firstName_def firstTypeName_def Let_def

section \<open>The batch operation: what the loops compute\<close>

lemma outcomes_length: "length (outcomes env k addrs w) = length addrs"
  by (induction addrs arbitrary: w) (auto split: prod.splits)

lemma addressLoop_eq:
  "addressLoop env k addrs b w =
     (\<lparr>success = success b @ acceptedAddresses addrs (outcomes env k addrs w),
       fail = fail b @ rejectedAddresses addrs (outcomes env k addrs w),
       contractIds = contractIds b @ acceptedIds (outcomes env k addrs w)\<rparr>,
      worldAfter env k addrs w)"
proof (induction addrs arbitrary: b w)
  case Nil
  then show ?case
    by (simp add: acceptedAddresses_def rejectedAddresses_def acceptedIds_def)
next
  case (Cons a rest)
  obtain r w' where t: "tryAddress env k a w = (r, w')" by (cases "tryAddress env k a w")
  show ?case
  proof (cases r)
    case (Inl e)
    then show ?thesis using t Cons.IH
      by (simp add: acceptedAddresses_def rejectedAddresses_def acceptedIds_def)
  next
    case (Inr cid)
    then show ?thesis using t Cons.IH
      by (simp add: acceptedAddresses_def rejectedAddresses_def acceptedIds_def)
  qed
qed

lemma addContracts_eq:
  "getCustomRepository env EventRepository w = Inr u \<Longrightarrow>
   getCustomRepository env ContractRepository w = Inr v \<Longrightarrow>
   addContracts env k addrs w =
     Inr \<lparr>resSuccess = acceptedAddresses addrs (outcomes env k addrs w),
          resFail = rejectedAddresses addrs (outcomes env k addrs w),
          backfillCalls = (if acceptedIds (outcomes env k addrs w) = [] then []
                           else [acceptedIds (outcomes env k addrs w)]),
          world = worldAfter env k addrs w\<rparr>"
  by (simp add: addContracts_def addressLoop_eq)





lemma partition_lengths:
  "length os = length addrs \<Longrightarrow>
   length (acceptedAddresses addrs os) = length addrs - length (filter isl os) \<and>
   length (rejectedAddresses addrs os) = length (filter isl os) \<and>
   length (acceptedIds os) = length (acceptedAddresses addrs os) \<and>
   set (acceptedAddresses addrs os) \<union> set (rejectedAddresses addrs os) = set addrs"
proof (induction addrs os rule: list_induct2')
  case (4 a addrs r os)
  then have l: "length os = length addrs" by simp
  have "length (filter isl os) \<le> length addrs" using l length_filter_le [of isl os] by simp
  then show ?case using 4(1) [OF l]
    by (auto simp: acceptedAddresses_def rejectedAddresses_def acceptedIds_def Suc_diff_le)
qed (simp_all add: acceptedAddresses_def rejectedAddresses_def acceptedIds_def)

lemma addEvents_registered:
  assumes mono: "\<And>n u r u'. eventAdd env n u = (r, u') \<Longrightarrow>
                   registered u \<subseteq> registered u' \<and> (\<not> isl r \<longrightarrow> n \<in> registered u')"
  shows "addEvents env ns ids w = (Inr ids', w') \<Longrightarrow>
         registered w \<subseteq> registered w' \<and> set ns \<subseteq> registered w' \<and>
         length ids' = length ids + length ns"
proof (induction ns arbitrary: ids w)
  case Nil
  then show ?case by simp
next
  case (Cons n ns)
  obtain r u where a: "eventAdd env n w = (r, u)" by (cases "eventAdd env n w")
  with Cons.prems obtain i where r: "r = Inr i" and
    rest: "addEvents env ns (ids @ [i]) u = (Inr ids', w')"
    by (cases r) auto
  from mono [OF a] r have m: "registered w \<subseteq> registered u" "n \<in> registered u" by auto
  from Cons.IH [OF rest] m show ?case by auto
qed

text \<open>Runs of the service in the sample worlds.\<close>

lemmas service_simps = tryAddress_def getContractDataFromEtherscan_def
  getStartingBlockFromEtherscan_def contractDataOf_def startingBlockOf_def sampleEnv_def
  sampleGetsourcecode_def sampleTxlist_def sampleJsonParse_def sampleEventAdd_def
  sampleContractAdd_def sampleEntry_def getEventsFromABI_def sampleAbiJson_def
  sampleGetCustomRepository_def

lemma run3: "outcomes (sampleEnv twoSmallDecls) ''key'' [''0xA'', ''0xB'', ''0xC''] emptyWorld
   = [Inr 0, Inl (Thrown ''NotFound''), Inr 1]"
  by (simp add: service_simps sample_simps twoSmallDecls_def emptyWorld_def)

lemma run1: "outcomes (sampleEnv twoSmallDecls) ''key'' [''0xB''] emptyWorld
   = [Inl (Thrown ''NotFound'')]"
  by (simp add: service_simps sample_simps twoSmallDecls_def emptyWorld_def)


lemma indexOf_Some_mem: "indexOf n ms = Some i \<Longrightarrow> n \<in> set ms"
  by (induction ms arbitrary: i) (auto split: if_splits option.splits)

section \<open>The event extraction and the backfill promise\<close>

lemma getEvents_spec: "getEventsFromABI (Some items) = eventNamesInOrder items"
  by (induction items) (auto simp: getEventsFromABI_def Let_def)

lemma count_filter_map:
  "count_list (map f (filter P xs)) n = length (filter (\<lambda>x. P x \<and> f x = n) xs)"
  by (induction xs) auto

lemma foldl_onEvent_settled_keep:
  "settled s \<noteq> Pending \<Longrightarrow> settled (foldl onEvent s evs) = settled s"
proof (induction evs arbitrary: s)
  case Nil
  then show ?case by simp
next
  case (Cons e evs)
  have "settled (onEvent s e) = settled s"
    using Cons.prems by (cases e) (auto simp: settle_def split: promise.splits)
  then show ?case using Cons by simp
qed

lemma foldl_onEvent_no_close:
  "\<not> list_ex isClose evs \<Longrightarrow> settled (foldl onEvent s evs) = settled s"
proof (induction evs arbitrary: s)
  case Nil
  then show ?case by simp
next
  case (Cons e evs)
  then have "settled (onEvent s e) = settled s" by (cases e) auto
  then show ?case using Cons by simp
qed

section \<open>Claims on the state extraction\<close>

subsection \<open>C1: the packing law\<close>

text \<open>
  C1, as the spec states it: two sequential elementary declarations of widths \<open>w1\<close> and
  \<open>w2\<close> with \<open>w1 + w2 \<le> 32\<close> occupy the same slot.  The service numbers the state
  variables of a contract by their index in the declaration list, so two \<open>uint8\<close>
  declarations (one byte each) receive the slots 0 and 1: the law fails for them.
\<close>

theorem packing_law_counterexample:
  "sizeOf (ElementaryTypeName ''uint8'') = Some 1 \<and>
   getStatesFromSourceCode (parsedAs twoSmallDecls) structureToSignatureType
       ''contract C { uint8 a; uint8 b; }''
     = Inr [\<lparr>slot = 0, type = ''uint8'', variable = Some ''a''\<rparr>,
            \<lparr>slot = 1, type = ''uint8'', variable = Some ''b''\<rparr>] \<and>
   \<not> spec_packing_law 1 1 \<lparr>slot = 0, type = ''uint8'', variable = Some ''a''\<rparr>
         \<lparr>slot = 1, type = ''uint8'', variable = Some ''b''\<rparr>"
  by (simp add: sizeOf_uint8 sample_simps twoSmallDecls_def spec_packing_law_def)

text \<open>
  C1, amended: two sequential state variable declarations of a contract, at the
  positions \<open>k\<close> and \<open>k + 1\<close> of its declaration list, receive the slots \<open>k\<close> and
  \<open>k + 1\<close>, whatever their types and widths; the records hold no byte offset.  In the
  output the assignments of a contract follow those of the contracts before it.
\<close>

theorem sequential_declarations_take_consecutive_slots:
  assumes "parse src = Inr ast" and "children ast = Some ch"
    and "contractsOf ast = pre @ c # post"
    and "Suc k < length (declsOf c)"
    and "getStatesFromSourceCode parse sig src = Inr out"
  shows "slot (out ! (declsBefore pre + k)) = k \<and>
         variable (out ! (declsBefore pre + k)) = firstName (declsOf c ! k) \<and>
         slot (out ! (declsBefore pre + Suc k)) = Suc k \<and>
         variable (out ! (declsBefore pre + Suc k)) = firstName (declsOf c ! Suc k)"
proof -
  have loop: "contractsLoop sig [] (pre @ c # post) = Inr out"
    using assms(1,2,3,5) by (simp add: getStates_parsed)
  have k: "k < length (declsOf c)" using assms(4) by simp
  from contractsLoop_at [OF loop k] contractsLoop_at [OF loop assms(4)]
  show ?thesis by simp
qed

text \<open>The amended C1 at \<^verbatim>\<open>contract C { uint8 a; uint8 b; }\<close>.\<close>

theorem sequential_declarations_take_consecutive_slots_witness:
  "parsedAs twoSmallDecls ''contract C { uint8 a; uint8 b; }'' = Inr twoSmallDecls \<and>
   children twoSmallDecls = Some [ContractDefinition ''C''
        [elementaryDecl ''uint8'' ''a'' False, elementaryDecl ''uint8'' ''b'' False]] \<and>
   contractsOf twoSmallDecls = [] @ ContractDefinition ''C''
        [elementaryDecl ''uint8'' ''a'' False, elementaryDecl ''uint8'' ''b'' False] # [] \<and>
   Suc 0 < length (declsOf (ContractDefinition ''C''
        [elementaryDecl ''uint8'' ''a'' False, elementaryDecl ''uint8'' ''b'' False])) \<and>
   getStatesFromSourceCode (parsedAs twoSmallDecls) structureToSignatureType
       ''contract C { uint8 a; uint8 b; }''
     = Inr [\<lparr>slot = 0, type = ''uint8'', variable = Some ''a''\<rparr>,
            \<lparr>slot = 1, type = ''uint8'', variable = Some ''b''\<rparr>] \<and>
   slot ([\<lparr>slot = 0, type = ''uint8'', variable = Some ''a''\<rparr>,
          \<lparr>slot = 1, type = ''uint8'', variable = Some ''b''\<rparr>] ! (declsBefore [] + 0)) = 0 \<and>
   slot ([\<lparr>slot = 0, type = ''uint8'', variable = Some ''a''\<rparr>,
          \<lparr>slot = 1, type = ''uint8'', variable = Some ''b''\<rparr>] ! (declsBefore [] + Suc 0)) = Suc 0"
proof -
  let ?c = "ContractDefinition ''C''
        [elementaryDecl ''uint8'' ''a'' False, elementaryDecl ''uint8'' ''b'' False]"
  let ?src = "''contract C { uint8 a; uint8 b; }''"
  let ?out = "[\<lparr>slot = 0, type = ''uint8'', variable = Some ''a''\<rparr>,
            \<lparr>slot = 1, type = ''uint8'', variable = Some ''b''\<rparr>]"
  have h1: "parsedAs twoSmallDecls ?src = Inr twoSmallDecls" by (simp add: parsedAs_def)
  have h2: "children twoSmallDecls = Some [?c]" by (simp add: twoSmallDecls_def)
  have h3: "contractsOf twoSmallDecls = [] @ ?c # []"
    by (simp add: contractsOf_def twoSmallDecls_def)
  have h4: "Suc 0 < length (declsOf ?c)" by (simp add: declsOf_def elementaryDecl_def)
  have h5: "getStatesFromSourceCode (parsedAs twoSmallDecls) structureToSignatureType ?src
              = Inr ?out"
    by (simp add: sample_simps twoSmallDecls_def)
  from sequential_declarations_take_consecutive_slots [OF h1 h2 h3 h4 h5]
  show ?thesis using h1 h2 h3 h4 h5 by simp
qed

subsection \<open>C2: constant and immutable declarations\<close>

text \<open>
  C2, as the spec states it: a declaration marked constant receives no assignment and
  the variables after it are allocated as if it were absent.  The service never reads
  the markers: the constant \<open>LIMIT\<close> receives slot 0 and the variable after it slot 1,
  where the document without the constant gives that variable slot 0.
\<close>

theorem constant_skipped_counterexample:
  "getStatesFromSourceCode (parsedAs constantThenVariable) structureToSignatureType
       ''contract C { uint256 constant LIMIT = 5; uint256 a; }''
     = Inr [\<lparr>slot = 0, type = ''uint256'', variable = Some ''LIMIT''\<rparr>,
            \<lparr>slot = 1, type = ''uint256'', variable = Some ''a''\<rparr>] \<and>
   getStatesFromSourceCode (parsedAs variableAlone) structureToSignatureType
       ''contract C { uint256 a; }''
     = Inr [\<lparr>slot = 0, type = ''uint256'', variable = Some ''a''\<rparr>] \<and>
   getStatesFromSourceCode (parsedAs constantThenVariable) structureToSignatureType
       ''contract C { uint256 constant LIMIT = 5; uint256 a; }''
     \<noteq> getStatesFromSourceCode (parsedAs variableAlone) structureToSignatureType
       ''contract C { uint256 a; }''"
  by (simp add: sample_simps constantThenVariable_def variableAlone_def)

text \<open>
  C2, amended: a state variable declaration marked constant or immutable is treated as
  every other declaration.  At position \<open>k\<close> of its contract's declaration list it
  receives an assignment with slot \<open>k\<close> and its name, the declarations after it are
  numbered counting it, and the output holds one assignment for every state variable
  declaration of the document.
\<close>

theorem constant_declarations_receive_slots:
  assumes "parse src = Inr ast" and "children ast = Some ch"
    and "contractsOf ast = pre @ c # post"
    and "k < length (declsOf c)"
    and "variables (declsOf c ! k) = v # vs"
    and "isDeclaredConst v \<or> isImmutable v"
    and "getStatesFromSourceCode parse sig src = Inr out"
  shows "declsBefore pre + k < length out \<and>
         slot (out ! (declsBefore pre + k)) = k \<and>
         variable (out ! (declsBefore pre + k)) = Some (varName v) \<and>
         (\<forall>j. k < j \<and> j < length (declsOf c) \<longrightarrow> slot (out ! (declsBefore pre + j)) = j) \<and>
         length out = declsBefore (contractsOf ast)"
proof -
  have loop: "contractsLoop sig [] (pre @ c # post) = Inr out"
    using assms(1,2,3,7) by (simp add: getStates_parsed)
  have "firstName (declsOf c ! k) = Some (varName v)"
    using assms(5) by (simp add: firstName_def)
  moreover have "\<forall>j. k < j \<and> j < length (declsOf c) \<longrightarrow> slot (out ! (declsBefore pre + j)) = j"
    using contractsLoop_at [OF loop] by blast
  moreover have "length out = declsBefore (contractsOf ast)"
    using contractsLoop_length [of sig "pre @ c # post" out] loop assms(3) by simp
  ultimately show ?thesis using contractsLoop_at [OF loop assms(4)] by simp
qed

text \<open>The amended C2 at \<^verbatim>\<open>contract C { uint256 constant LIMIT = 5; uint256 a; }\<close>.\<close>

theorem constant_declarations_receive_slots_witness:
  "parsedAs constantThenVariable ''contract C { uint256 constant LIMIT = 5; uint256 a; }''
     = Inr constantThenVariable \<and>
   contractsOf constantThenVariable = [] @ ContractDefinition ''C''
        [elementaryDecl ''uint256'' ''LIMIT'' True, elementaryDecl ''uint256'' ''a'' False] # [] \<and>
   variables (declsOf (ContractDefinition ''C''
        [elementaryDecl ''uint256'' ''LIMIT'' True, elementaryDecl ''uint256'' ''a'' False]) ! 0)
     = \<lparr>varName = ''LIMIT'', varTypeName = ElementaryTypeName ''uint256'',
         isDeclaredConst = True, isImmutable = False\<rparr> # [] \<and>
   getStatesFromSourceCode (parsedAs constantThenVariable) structureToSignatureType
       ''contract C { uint256 constant LIMIT = 5; uint256 a; }''
     = Inr [\<lparr>slot = 0, type = ''uint256'', variable = Some ''LIMIT''\<rparr>,
            \<lparr>slot = 1, type = ''uint256'', variable = Some ''a''\<rparr>] \<and>
   variable ([\<lparr>slot = 0, type = ''uint256'', variable = Some ''LIMIT''\<rparr>,
              \<lparr>slot = 1, type = ''uint256'', variable = Some ''a''\<rparr>] ! (declsBefore [] + 0))
     = Some ''LIMIT'' \<and>
   slot ([\<lparr>slot = 0, type = ''uint256'', variable = Some ''LIMIT''\<rparr>,
          \<lparr>slot = 1, type = ''uint256'', variable = Some ''a''\<rparr>] ! (declsBefore [] + 1)) = 1"
proof -
  let ?v = "\<lparr>varName = ''LIMIT'', varTypeName = ElementaryTypeName ''uint256'',
         isDeclaredConst = True, isImmutable = False\<rparr>"
  let ?c = "ContractDefinition ''C''
        [elementaryDecl ''uint256'' ''LIMIT'' True, elementaryDecl ''uint256'' ''a'' False]"
  let ?src = "''contract C { uint256 constant LIMIT = 5; uint256 a; }''"
  let ?out = "[\<lparr>slot = 0, type = ''uint256'', variable = Some ''LIMIT''\<rparr>,
            \<lparr>slot = 1, type = ''uint256'', variable = Some ''a''\<rparr>]"
  have h1: "parsedAs constantThenVariable ?src = Inr constantThenVariable"
    by (simp add: parsedAs_def)
  have h2: "children constantThenVariable = Some [?c]" by (simp add: constantThenVariable_def)
  have h3: "contractsOf constantThenVariable = [] @ ?c # []"
    by (simp add: contractsOf_def constantThenVariable_def)
  have h4: "0 < length (declsOf ?c)" by (simp add: declsOf_def elementaryDecl_def)
  have h5: "variables (declsOf ?c ! 0) = ?v # []" by (simp add: declsOf_def elementaryDecl_def)
  have h6: "isDeclaredConst ?v \<or> isImmutable ?v" by simp
  have h7: "getStatesFromSourceCode (parsedAs constantThenVariable) structureToSignatureType ?src
              = Inr ?out"
    by (simp add: sample_simps constantThenVariable_def)
  have d: "length (declsOf ?c) = 2" by (simp add: declsOf_def elementaryDecl_def)
  from constant_declarations_receive_slots [OF h1 h2 h3 h4 h5 h6 h7]
  show ?thesis using h1 h3 h5 h7 d by (simp add: declsBefore_def)
qed

subsection \<open>C3: no overlap\<close>

text \<open>
  C3, as the spec states it: any two distinct assignments of the output for a document
  differ in slot or occupy disjoint byte ranges of one slot.  The records hold no byte
  range, and the numbering starts again at 0 for every contract definition of the
  document: the first variables of two contracts both receive slot 0, and two \<open>uint256\<close>
  values (32 bytes each) cannot share a slot.
\<close>

theorem no_overlap_counterexample:
  "sizeOf (ElementaryTypeName ''uint256'') = Some 32 \<and>
   getStatesFromSourceCode (parsedAs twoContracts) structureToSignatureType
       ''contract A { uint256 a; } contract B { uint256 b; }''
     = Inr [\<lparr>slot = 0, type = ''uint256'', variable = Some ''a''\<rparr>,
            \<lparr>slot = 0, type = ''uint256'', variable = Some ''b''\<rparr>] \<and>
   slot ([\<lparr>slot = 0, type = ''uint256'', variable = Some ''a''\<rparr>,
          \<lparr>slot = 0, type = ''uint256'', variable = Some ''b''\<rparr>] ! 0)
     = slot ([\<lparr>slot = 0, type = ''uint256'', variable = Some ''a''\<rparr>,
              \<lparr>slot = 0, type = ''uint256'', variable = Some ''b''\<rparr>] ! 1)"
  by (simp add: sizeOf_uint256 sample_simps twoContracts_def)

text \<open>
  C3, amended: the assignments for two distinct state variable declarations of one
  contract definition differ in slot, so the output for a document with a single contract
  definition has pairwise distinct slots; the assignments of different contract
  definitions of one document are numbered independently and may share a slot index.
\<close>

theorem assignments_of_one_contract_have_distinct_slots:
  assumes "parse src = Inr ast" and "children ast = Some ch"
    and "contractsOf ast = pre @ c # post"
    and "i < length (declsOf c)" and "j < length (declsOf c)" and "i \<noteq> j"
    and "getStatesFromSourceCode parse sig src = Inr out"
  shows "slot (out ! (declsBefore pre + i)) \<noteq> slot (out ! (declsBefore pre + j)) \<and>
         (pre = [] \<and> post = [] \<longrightarrow> distinct (map slot out))"
proof -
  have loop: "contractsLoop sig [] (pre @ c # post) = Inr out"
    using assms(1,2,3,7) by (simp add: getStates_parsed)
  have a: "slot (out ! (declsBefore pre + i)) \<noteq> slot (out ! (declsBefore pre + j))"
    using contractsLoop_at [OF loop assms(4)] contractsLoop_at [OF loop assms(5)] assms(6)
    by simp
  have b: "distinct (map slot out)" if "pre = []" "post = []"
  proof -
    from loop that obtain l where "statesMap sig (structsOf c) 0 (declsOf c) = Inr l" "out = l"
      by (auto simp: Let_def declsOf_def structsOf_def split: sum.splits)
    then have "map slot out = [0..<length (declsOf c)]"
      using statesMap_slots [of sig "structsOf c" 0 "declsOf c" l] by simp
    then show ?thesis by simp
  qed
  from a b show ?thesis by blast
qed

text \<open>The amended C3 at \<^verbatim>\<open>contract C { uint8 a; uint8 b; }\<close>.\<close>

theorem assignments_of_one_contract_have_distinct_slots_witness:
  "parsedAs twoSmallDecls ''contract C { uint8 a; uint8 b; }'' = Inr twoSmallDecls \<and>
   contractsOf twoSmallDecls = [] @ ContractDefinition ''C''
        [elementaryDecl ''uint8'' ''a'' False, elementaryDecl ''uint8'' ''b'' False] # [] \<and>
   getStatesFromSourceCode (parsedAs twoSmallDecls) structureToSignatureType
       ''contract C { uint8 a; uint8 b; }''
     = Inr [\<lparr>slot = 0, type = ''uint8'', variable = Some ''a''\<rparr>,
            \<lparr>slot = 1, type = ''uint8'', variable = Some ''b''\<rparr>] \<and>
   slot ([\<lparr>slot = 0, type = ''uint8'', variable = Some ''a''\<rparr>,
          \<lparr>slot = 1, type = ''uint8'', variable = Some ''b''\<rparr>] ! (declsBefore [] + 0))
     \<noteq> slot ([\<lparr>slot = 0, type = ''uint8'', variable = Some ''a''\<rparr>,
          \<lparr>slot = 1, type = ''uint8'', variable = Some ''b''\<rparr>] ! (declsBefore [] + 1)) \<and>
   distinct (map slot [\<lparr>slot = 0, type = ''uint8'', variable = Some ''a''\<rparr>,
          \<lparr>slot = 1, type = ''uint8'', variable = Some ''b''\<rparr>])"
proof -
  let ?c = "ContractDefinition ''C''
        [elementaryDecl ''uint8'' ''a'' False, elementaryDecl ''uint8'' ''b'' False]"
  let ?src = "''contract C { uint8 a; uint8 b; }''"
  let ?out = "[\<lparr>slot = 0, type = ''uint8'', variable = Some ''a''\<rparr>,
            \<lparr>slot = 1, type = ''uint8'', variable = Some ''b''\<rparr>]"
  have h1: "parsedAs twoSmallDecls ?src = Inr twoSmallDecls" by (simp add: parsedAs_def)
  have h2: "children twoSmallDecls = Some [?c]" by (simp add: twoSmallDecls_def)
  have h3: "contractsOf twoSmallDecls = [] @ ?c # []"
    by (simp add: contractsOf_def twoSmallDecls_def)
  have h4: "0 < length (declsOf ?c)" by (simp add: declsOf_def elementaryDecl_def)
  have h5: "1 < length (declsOf ?c)" by (simp add: declsOf_def elementaryDecl_def)
  have h6: "(0::nat) \<noteq> 1" by simp
  have h7: "getStatesFromSourceCode (parsedAs twoSmallDecls) structureToSignatureType ?src
              = Inr ?out"
    by (simp add: sample_simps twoSmallDecls_def)
  from assignments_of_one_contract_have_distinct_slots [OF h1 h2 h3 h4 h5 h6 h7]
  show ?thesis using h1 h3 h7 by simp
qed

subsection \<open>C4: determinism\<close>

text \<open>
  C4: the resolver is deterministic.  Two runs whose parser returned the same tree, with
  signature builders that agree on the declared state variables of that tree (each with
  the struct definitions of its contract), end alike: both raise the same exception, or
  both return the same list, of the same length and with equal slot, signature and
  variable name at every position (the records have no other field).
\<close>

theorem resolver_deterministic:
  assumes "parse1 src1 = Inr ast" and "parse2 src2 = Inr ast"
    and "\<forall>c \<in> set (contractsOf ast). \<forall>d \<in> set (declsOf c).
           sig1 (firstName d) (firstTypeName d) (structsOf c)
             = sig2 (firstName d) (firstTypeName d) (structsOf c)"
  shows "getStatesFromSourceCode parse1 sig1 src1 = getStatesFromSourceCode parse2 sig2 src2 \<and>
         (\<forall>out1 out2.
            getStatesFromSourceCode parse1 sig1 src1 = Inr out1 \<and>
            getStatesFromSourceCode parse2 sig2 src2 = Inr out2 \<longrightarrow>
            length out1 = length out2 \<and>
            (\<forall>i < length out1.
               slot (out1 ! i) = slot (out2 ! i) \<and> type (out1 ! i) = type (out2 ! i) \<and>
               variable (out1 ! i) = variable (out2 ! i)))"
proof -
  have "getStatesFromSourceCode parse1 sig1 src1 = getStatesFromSourceCode parse2 sig2 src2"
  proof (cases "children ast")
    case None
    then show ?thesis using assms(1,2) by (simp add: getStatesFromSourceCode_def)
  next
    case (Some ch)
    have "contractsLoop sig1 [] (contractsOf ast) = contractsLoop sig2 [] (contractsOf ast)"
      by (rule contractsLoop_cong_sig) (use assms(3) in blast)
    then show ?thesis using assms(1,2) Some by (simp add: getStates_parsed)
  qed
  then show ?thesis by auto
qed

text \<open>C4 at \<^verbatim>\<open>contract A { uint256 a; } contract B { uint256 b; }\<close>, run twice.\<close>

theorem resolver_deterministic_witness:
  "parsedAs twoContracts ''contract A { uint256 a; } contract B { uint256 b; }''
     = Inr twoContracts \<and>
   getStatesFromSourceCode (parsedAs twoContracts) structureToSignatureType
       ''contract A { uint256 a; } contract B { uint256 b; }''
     = getStatesFromSourceCode (parsedAs twoContracts) structureToSignatureType
       ''contract A { uint256 a; } contract B { uint256 b; }'' \<and>
   getStatesFromSourceCode (parsedAs twoContracts) structureToSignatureType
       ''contract A { uint256 a; } contract B { uint256 b; }''
     = Inr [\<lparr>slot = 0, type = ''uint256'', variable = Some ''a''\<rparr>,
            \<lparr>slot = 0, type = ''uint256'', variable = Some ''b''\<rparr>]"
proof -
  let ?src = "''contract A { uint256 a; } contract B { uint256 b; }''"
  have h1: "parsedAs twoContracts ?src = Inr twoContracts" by (simp add: parsedAs_def)
  have h3: "\<forall>c \<in> set (contractsOf twoContracts). \<forall>d \<in> set (declsOf c).
           structureToSignatureType (firstName d) (firstTypeName d) (structsOf c)
             = structureToSignatureType (firstName d) (firstTypeName d) (structsOf c)"
    by simp
  have h: "getStatesFromSourceCode (parsedAs twoContracts) structureToSignatureType ?src
     = Inr [\<lparr>slot = 0, type = ''uint256'', variable = Some ''a''\<rparr>,
            \<lparr>slot = 0, type = ''uint256'', variable = Some ''b''\<rparr>]"
    by (simp add: sample_simps twoContracts_def)
  from resolver_deterministic
    [of "parsedAs twoContracts" ?src twoContracts "parsedAs twoContracts" ?src
       structureToSignatureType structureToSignatureType, OF h1 h1 h3]
  show ?thesis using h1 h by simp
qed

subsection \<open>C5: cyclic structs\<close>

text \<open>
  C5, as the spec states it: a document with a struct that contains itself is rejected
  with \<open>CyclicStruct\<close>.  The service has no check of its own on the struct definitions;
  it hands them to the signature builder, once for every state variable.  For a contract
  without state variables the builder is never called, and the extraction returns the
  empty list although the struct \<open>Node\<close> contains itself.
\<close>

theorem cyclic_struct_counterexample:
  "structureToSignatureType (Some ''root'') (Some (UserDefinedTypeName ''Node''))
       [StructDefinition ''Node''
           [(''children'', ArrayTypeName (UserDefinedTypeName ''Node'') None)]]
     = Inl (Error ''CyclicStruct'') \<and>
   getStatesFromSourceCode (parsedAs selfContaining) structureToSignatureType
       ''contract Tree { struct Node { Node[] children; } }''
     = Inr []"
  by (simp add: sample_simps selfContaining_def)

text \<open>
  C5, amended: the extraction of a parsed document fails exactly when the signature
  builder fails on one of its declared state variables, and then with an exception the
  builder raised, so that no assignment is produced for any variable of the document; a
  document whose contracts declare no state variable yields the empty list, whatever its
  struct definitions are.
\<close>

theorem resolution_fails_only_through_signature_builder:
  assumes "parse src = Inr ast" and "children ast = Some ch"
  shows "((\<exists>e. getStatesFromSourceCode parse sig src = Inl e) \<longleftrightarrow>
            (\<exists>c \<in> set (contractsOf ast). \<exists>d \<in> set (declsOf c).
               \<exists>e. sig (firstName d) (firstTypeName d) (structsOf c) = Inl e)) \<and>
         (\<forall>e. getStatesFromSourceCode parse sig src = Inl e \<longrightarrow>
            (\<exists>c \<in> set (contractsOf ast). \<exists>d \<in> set (declsOf c).
               sig (firstName d) (firstTypeName d) (structsOf c) = Inl e)) \<and>
         ((\<forall>c \<in> set (contractsOf ast). declsOf c = []) \<longrightarrow>
            getStatesFromSourceCode parse sig src = Inr [])"
proof -
  have g: "getStatesFromSourceCode parse sig src = contractsLoop sig [] (contractsOf ast)"
    using assms by (rule getStates_parsed)
  have a: "(\<exists>e. getStatesFromSourceCode parse sig src = Inl e) \<longleftrightarrow>
            (\<exists>c \<in> set (contractsOf ast). \<exists>d \<in> set (declsOf c).
               \<exists>e. sig (firstName d) (firstTypeName d) (structsOf c) = Inl e)"
    unfolding g by (rule contractsLoop_Inl_iff)
  have b: "\<forall>e. getStatesFromSourceCode parse sig src = Inl e \<longrightarrow>
            (\<exists>c \<in> set (contractsOf ast). \<exists>d \<in> set (declsOf c).
               sig (firstName d) (firstTypeName d) (structsOf c) = Inl e)"
    unfolding g using contractsLoop_Inl_source by blast
  have c: "getStatesFromSourceCode parse sig src = Inr []"
    if e: "\<forall>c \<in> set (contractsOf ast). declsOf c = []"
  proof -
    from e a have "\<not> (\<exists>e. getStatesFromSourceCode parse sig src = Inl e)" by simp
    then obtain out where out: "contractsLoop sig [] (contractsOf ast) = Inr out"
      unfolding g by (cases "contractsLoop sig [] (contractsOf ast)") auto
    have "declsBefore (contractsOf ast) = 0" using e by (simp add: declsBefore_def)
    with contractsLoop_length [OF out] show ?thesis using g out by simp
  qed
  from a b c show ?thesis by blast
qed

text \<open>
  The amended C5 at a contract with a state variable of the self-containing struct type:
  the builder's exception ends the extraction.
\<close>

theorem resolution_fails_only_through_signature_builder_witness:
  "parsedAs selfContainingUsed
       ''contract Tree { struct Node { Node[] children; } uint256 count; Node root; }''
     = Inr selfContainingUsed \<and>
   getStatesFromSourceCode (parsedAs selfContainingUsed) structureToSignatureType
       ''contract Tree { struct Node { Node[] children; } uint256 count; Node root; }''
     = Inl (Error ''CyclicStruct'') \<and>
   (\<exists>c \<in> set (contractsOf selfContainingUsed). \<exists>d \<in> set (declsOf c).
      structureToSignatureType (firstName d) (firstTypeName d) (structsOf c)
        = Inl (Error ''CyclicStruct''))"
proof -
  let ?src = "''contract Tree { struct Node { Node[] children; } uint256 count; Node root; }''"
  have h1: "parsedAs selfContainingUsed ?src = Inr selfContainingUsed"
    by (simp add: parsedAs_def)
  have h2: "children selfContainingUsed = Some [ContractDefinition ''Tree''
        [StructDefinition ''Node''
           [(''children'', ArrayTypeName (UserDefinedTypeName ''Node'') None)],
         elementaryDecl ''uint256'' ''count'' False,
         StateVariableDeclaration
           [\<lparr>varName = ''root'', varTypeName = UserDefinedTypeName ''Node'',
             isDeclaredConst = False, isImmutable = False\<rparr>]]]"
    by (simp add: selfContainingUsed_def)
  have h: "getStatesFromSourceCode (parsedAs selfContainingUsed) structureToSignatureType ?src
     = Inl (Error ''CyclicStruct'')"
    by (simp add: sample_simps selfContainingUsed_def)
  from resolution_fails_only_through_signature_builder
    [of "parsedAs selfContainingUsed" ?src selfContainingUsed _ structureToSignatureType,
     OF h1 h2]
  show ?thesis using h1 h by simp
qed

section \<open>Claims on the batch operation\<close>

subsection \<open>C6: the batch returns and partitions its addresses\<close>




subsection \<open>C7: the backfill is dispatched once, and only for accepted contracts\<close>

text \<open>
  C7: after the loop (the batch is processed once both repositories are found),
  \<open>runBackfillService\<close> is called exactly once, with the identifiers of all accepted
  contracts in the order of their addresses, when at least one address was accepted, and
  it is not called when every address was rejected.
\<close>

theorem backfill_dispatched_once_with_accepted_ids:
  assumes "getCustomRepository env EventRepository w = Inr ()"
    and "getCustomRepository env ContractRepository w = Inr ()"
  shows "\<exists>r. addContracts env k addrs w = Inr r \<and>
           backfillCalls r
             = (if acceptedIds (outcomes env k addrs w) = [] then []
                else [acceptedIds (outcomes env k addrs w)]) \<and>
           length (acceptedIds (outcomes env k addrs w)) = length (resSuccess r) \<and>
           (resSuccess r = []) = (acceptedIds (outcomes env k addrs w) = []) \<and>
           (resSuccess r \<noteq> [] \<longrightarrow> length (backfillCalls r) = 1) \<and>
           (resSuccess r = [] \<longrightarrow> backfillCalls r = [])"
proof -
  let ?os = "outcomes env k addrs w"
  let ?r = "\<lparr>resSuccess = acceptedAddresses addrs (outcomes env k addrs w),
              resFail = rejectedAddresses addrs (outcomes env k addrs w),
              backfillCalls = (if acceptedIds (outcomes env k addrs w) = [] then []
                               else [acceptedIds (outcomes env k addrs w)]),
              world = worldAfter env k addrs w\<rparr>"
  have eq: "addContracts env k addrs w = Inr ?r"
    using assms by (rule addContracts_eq)
  have l: "length ?os = length addrs" by (rule outcomes_length)
  from partition_lengths [OF l]
  have e: "length (acceptedIds ?os) = length (acceptedAddresses addrs ?os)" by simp
  then have n: "(acceptedAddresses addrs ?os = []) = (acceptedIds ?os = [])"
    by (metis length_0_conv)
  have "backfillCalls ?r = (if acceptedIds ?os = [] then [] else [acceptedIds ?os]) \<and>
        length (acceptedIds ?os) = length (resSuccess ?r) \<and>
        (resSuccess ?r = []) = (acceptedIds ?os = []) \<and>
        (resSuccess ?r \<noteq> [] \<longrightarrow> length (backfillCalls ?r) = 1) \<and>
        (resSuccess ?r = [] \<longrightarrow> backfillCalls ?r = [])"
    using e n by simp
  with eq show ?thesis by blast
qed

text \<open>
  C7 at the batch of three addresses (one call, with both identifiers) and at a batch
  whose only address is rejected (no call).
\<close>

theorem backfill_dispatched_once_with_accepted_ids_witness:
  "getCustomRepository (sampleEnv twoSmallDecls) EventRepository emptyWorld = Inr () \<and>
   getCustomRepository (sampleEnv twoSmallDecls) ContractRepository emptyWorld = Inr () \<and>
   (case addContracts (sampleEnv twoSmallDecls) ''key'' [''0xA'', ''0xB'', ''0xC''] emptyWorld of
      Inl e \<Rightarrow> None
    | Inr r \<Rightarrow> Some (resSuccess r, backfillCalls r))
     = Some ([''0xA'', ''0xC''], [[0, 1]]) \<and>
   (case addContracts (sampleEnv twoSmallDecls) ''key'' [''0xB''] emptyWorld of
      Inl e \<Rightarrow> None
    | Inr r \<Rightarrow> Some (resSuccess r, backfillCalls r))
     = Some ([], [])"
proof -
  let ?env = "sampleEnv twoSmallDecls"
  have h1: "getCustomRepository ?env EventRepository emptyWorld = Inr ()"
    by (simp add: sampleEnv_def sampleGetCustomRepository_def emptyWorld_def)
  have h2: "getCustomRepository ?env ContractRepository emptyWorld = Inr ()"
    by (simp add: sampleEnv_def sampleGetCustomRepository_def emptyWorld_def)
  from backfill_dispatched_once_with_accepted_ids [OF h1 h2, of "''key''" "[''0xA'', ''0xB'', ''0xC'']"]
  obtain r3 where r3:
    "addContracts ?env ''key'' [''0xA'', ''0xB'', ''0xC''] emptyWorld = Inr r3"
    "backfillCalls r3
       = (if acceptedIds (outcomes ?env ''key'' [''0xA'', ''0xB'', ''0xC''] emptyWorld) = [] then []
          else [acceptedIds (outcomes ?env ''key'' [''0xA'', ''0xB'', ''0xC''] emptyWorld)])"
    by blast
  from backfill_dispatched_once_with_accepted_ids [OF h1 h2, of "''key''" "[''0xB'']"]
  obtain r1 where r1:
    "addContracts ?env ''key'' [''0xB''] emptyWorld = Inr r1"
    "backfillCalls r1
       = (if acceptedIds (outcomes ?env ''key'' [''0xB''] emptyWorld) = [] then []
          else [acceptedIds (outcomes ?env ''key'' [''0xB''] emptyWorld)])"
    by blast
  have c3: "backfillCalls r3 = [[0, 1]]"
    using r3(2) by (simp add: run3 acceptedIds_def del: outcomes.simps)
  have c1: "backfillCalls r1 = []"
    using r1(2) by (simp add: run1 acceptedIds_def del: outcomes.simps)
  have s3: "resSuccess r3 = [''0xA'', ''0xC'']"
    using r3(1) addContracts_eq [OF h1 h2, of "''key''" "[''0xA'', ''0xB'', ''0xC'']"]
    by (auto simp: run3 acceptedAddresses_def simp del: outcomes.simps)
  have s1: "resSuccess r1 = []"
    using r1(1) addContracts_eq [OF h1 h2, of "''key''" "[''0xB'']"]
    by (auto simp: run1 acceptedAddresses_def simp del: outcomes.simps)
  show ?thesis using h1 h2 r3(1) r1(1) c3 c1 s3 s1 by simp
qed

subsection \<open>C8: the event extraction\<close>

text \<open>
  C8: \<open>getEventsFromABI\<close> returns the names of the entries of kind "event", in the order
  of the ABI and with duplicates kept: it is the walk \<open>eventNamesInOrder\<close>, it distributes
  over concatenation, a single entry gives its name or nothing, and every name occurs as
  often as there are event entries of that name.  A missing ABI and an empty ABI give the
  empty list.
\<close>

theorem event_extraction_exact:
  "getEventsFromABI None = [] \<and>
   getEventsFromABI (Some []) = [] \<and>
   getEventsFromABI (Some items) = eventNamesInOrder items \<and>
   getEventsFromABI (Some (xs @ ys)) = getEventsFromABI (Some xs) @ getEventsFromABI (Some ys) \<and>
   getEventsFromABI (Some [entry]) = (if itemType entry = ''event'' then [itemName entry] else []) \<and>
   length (getEventsFromABI (Some items))
     = length (filter (\<lambda>entry. itemType entry = ''event'') items) \<and>
   count_list (getEventsFromABI (Some items)) n
     = length (filter (\<lambda>entry. itemType entry = ''event'' \<and> itemName entry = n) items)"
proof -
  have a1: "getEventsFromABI None = []" by (simp add: getEventsFromABI_def)
  have a2: "getEventsFromABI (Some []) = []" by (simp add: getEventsFromABI_def)
  have a3: "getEventsFromABI (Some items) = eventNamesInOrder items" by (rule getEvents_spec)
  have a4: "getEventsFromABI (Some (xs @ ys))
              = getEventsFromABI (Some xs) @ getEventsFromABI (Some ys)"
    by (simp add: getEventsFromABI_def Let_def)
  have a5: "getEventsFromABI (Some [entry])
              = (if itemType entry = ''event'' then [itemName entry] else [])"
    by (simp add: getEventsFromABI_def Let_def)
  have a6: "length (getEventsFromABI (Some items))
              = length (filter (\<lambda>entry. itemType entry = ''event'') items)"
    by (simp add: getEventsFromABI_def Let_def)
  have a7: "count_list (getEventsFromABI (Some items)) n
     = length (filter (\<lambda>entry. itemType entry = ''event'' \<and> itemName entry = n) items)"
    by (simp add: getEventsFromABI_def Let_def count_filter_map)
  from a1 a2 a3 a4 a5 a6 a7 show ?thesis by (intro conjI)
qed

text \<open>C8 at an ABI with two events named \<open>Transfer\<close> and a function.\<close>

theorem event_extraction_exact_witness:
  "getEventsFromABI (Some [\<lparr>itemType = ''event'', itemName = ''Transfer''\<rparr>,
                           \<lparr>itemType = ''event'', itemName = ''Transfer''\<rparr>,
                           \<lparr>itemType = ''function'', itemName = ''balanceOf''\<rparr>])
     = [''Transfer'', ''Transfer''] \<and>
   count_list (getEventsFromABI (Some [\<lparr>itemType = ''event'', itemName = ''Transfer''\<rparr>,
                           \<lparr>itemType = ''event'', itemName = ''Transfer''\<rparr>,
                           \<lparr>itemType = ''function'', itemName = ''balanceOf''\<rparr>])) ''Transfer'' = 2"
proof -
  from event_extraction_exact
    [of "[\<lparr>itemType = ''event'', itemName = ''Transfer''\<rparr>,
          \<lparr>itemType = ''event'', itemName = ''Transfer''\<rparr>,
          \<lparr>itemType = ''function'', itemName = ''balanceOf''\<rparr>]" "[]" "[]" _ "''Transfer''"]
  show ?thesis by simp
qed

subsection \<open>C9: the promise of the backfill dispatcher\<close>

text \<open>
  C9: as long as the process has not closed the promise is pending; when it closes, the
  promise resolves if the exit code is 0 and is rejected with the exit code otherwise
  (also with \<open>null\<close>, when a signal ended the process).  Output of the process before the
  close event and any event after it do not change the outcome.
\<close>

theorem backfill_promise_follows_exit_status:
  assumes "\<not> list_ex isClose before"
  shows "settled (runBackfillService before) = Pending \<and>
         settled (runBackfillService (before @ Close code # later))
           = (if code = Some 0 then Resolved code else Rejected code)"
proof -
  let ?s0 = "\<lparr>settled = Pending, logged = []\<rparr>"
  let ?s1 = "foldl onEvent ?s0 before"
  have p: "settled ?s1 = Pending" using foldl_onEvent_no_close [OF assms, of ?s0] by simp
  let ?s2 = "onEvent ?s1 (Close code)"
  have s2: "settled ?s2 = (if code = Some 0 then Resolved code else Rejected code)"
    using p by (simp add: settle_def)
  then have "settled ?s2 \<noteq> Pending" by simp
  then have "settled (foldl onEvent ?s2 later) = settled ?s2"
    by (rule foldl_onEvent_settled_keep)
  then show ?thesis using p s2 by (simp add: runBackfillService_def)
qed

text \<open>C9 at a process that prints a line and exits with 0, with 1, or by a signal.\<close>

theorem backfill_promise_follows_exit_status_witness:
  "\<not> list_ex isClose [StdoutData ''done''] \<and>
   settled (runBackfillService [StdoutData ''done'']) = Pending \<and>
   settled (runBackfillService ([StdoutData ''done''] @ Close (Some 0) # [])) = Resolved (Some 0) \<and>
   settled (runBackfillService ([StdoutData ''done''] @ Close (Some 1) # [])) = Rejected (Some 1) \<and>
   settled (runBackfillService ([StdoutData ''done''] @ Close None # [])) = Rejected None"
proof -
  have h: "\<not> list_ex isClose [StdoutData ''done'']" by simp
  from backfill_promise_follows_exit_status [OF h, of "Some 0" "[]"]
    backfill_promise_follows_exit_status [OF h, of "Some 1" "[]"]
    backfill_promise_follows_exit_status [OF h, of None "[]"]
  show ?thesis using h by simp
qed

subsection \<open>C10: no rollback of the event registry\<close>

text \<open>
  C10: when the metadata, the starting block, the state extraction and all event additions
  of an address succeeded and storing the contract throws, the address is reported in
  \<open>fail\<close> and the world is left as the failing call left it: the service undoes nothing.
  For any view \<open>registered\<close> of the registry that event additions only extend, and that the
  failing call does not shrink, every event name of the address's ABI is still registered.
  (The batch is processed once both repositories are found.)
\<close>

theorem events_remain_when_contract_persist_fails:
  assumes "getCustomRepository env EventRepository w = Inr ()"
    and "getCustomRepository env ContractRepository w = Inr ()"
    and "getContractDataFromEtherscan env k a w = (Inr data, w1)"
    and "getStartingBlockFromEtherscan env k a w1 = (Inr block, w2)"
    and "getStatesFromSourceCode (parseSource env) (signatureType env) (dataSourceCode data)
           = Inr sts"
    and "addEvents env (getEventsFromABI (dataAbi data)) [] w2 = (Inr ids, w3)"
    and "contractAdd env
           \<lparr>address = a, startingBlock = block, name = dataName data, abi = dataAbi data,
            events = ids\<rparr> w3 = (Inl e, w4)"
    and "\<And>n u r u'. eventAdd env n u = (r, u') \<Longrightarrow>
           registered u \<subseteq> registered u' \<and> (\<not> isl r \<longrightarrow> n \<in> registered u')"
    and "registered w3 \<subseteq> registered w4"
  shows "tryAddress env k a w = (Inl e, w4) \<and>
         addContracts env k [a] w
           = Inr \<lparr>resSuccess = [], resFail = [a], backfillCalls = [], world = w4\<rparr> \<and>
         set (getEventsFromABI (dataAbi data)) \<subseteq> registered w4"
proof -
  have t: "tryAddress env k a w = (Inl e, w4)"
    using assms(3-7) by (simp add: tryAddress_def)
  then have "addContracts env k [a] w
           = Inr \<lparr>resSuccess = [], resFail = [a], backfillCalls = [], world = w4\<rparr>"
    using assms(1,2) by (simp add: addContracts_def)
  moreover from addEvents_registered [of env registered, OF assms(8) assms(6)] assms(9)
  have "set (getEventsFromABI (dataAbi data)) \<subseteq> registered w4" by auto
  ultimately show ?thesis using t by simp
qed

text \<open>
  C10 in the world where the address \<open>0xA\<close> is stored already: its event \<open>Transfer\<close> is
  added to the empty registry, storing the contract fails, and the event stays.
\<close>

theorem events_remain_when_contract_persist_fails_witness:
  "getEventsFromABI (Some [\<lparr>itemType = ''event'', itemName = ''Transfer''\<rparr>,
                           \<lparr>itemType = ''event'', itemName = ''Transfer''\<rparr>,
                           \<lparr>itemType = ''function'', itemName = ''balanceOf''\<rparr>])
     = [''Transfer'', ''Transfer''] \<and>
   registry knownWorld = [] \<and>
   addContracts (sampleEnv twoSmallDecls) ''key'' [''0xA''] knownWorld
     = Inr \<lparr>resSuccess = [], resFail = [''0xA''], backfillCalls = [],
            world = knownWorld\<lparr>registry := [''Transfer'']\<rparr>\<rparr> \<and>
   ''Transfer'' \<in> set (registry (knownWorld\<lparr>registry := [''Transfer'']\<rparr>))"
proof -
  let ?env = "sampleEnv twoSmallDecls"
  let ?abi = "Some [\<lparr>itemType = ''event'', itemName = ''Transfer''\<rparr>,
                    \<lparr>itemType = ''event'', itemName = ''Transfer''\<rparr>,
                    \<lparr>itemType = ''function'', itemName = ''balanceOf''\<rparr>]"
  let ?data = "\<lparr>dataName = ''Token'', dataAbi = ?abi,
                dataSourceCode = ''contract C { uint8 a; uint8 b; }''\<rparr>"
  let ?w3 = "knownWorld\<lparr>registry := [''Transfer'']\<rparr>"
  have c1: "getCustomRepository ?env EventRepository knownWorld = Inr ()"
    by (simp add: sampleEnv_def sampleGetCustomRepository_def knownWorld_def)
  have c2: "getCustomRepository ?env ContractRepository knownWorld = Inr ()"
    by (simp add: sampleEnv_def sampleGetCustomRepository_def knownWorld_def)
  have h1: "getContractDataFromEtherscan ?env ''key'' ''0xA'' knownWorld = (Inr ?data, knownWorld)"
    by (simp add: service_simps knownWorld_def)
  have h2: "getStartingBlockFromEtherscan ?env ''key'' ''0xA'' knownWorld = (Inr 100, knownWorld)"
    by (simp add: service_simps knownWorld_def)
  have h3: "getStatesFromSourceCode (parseSource ?env) (signatureType ?env) (dataSourceCode ?data)
     = Inr [\<lparr>slot = 0, type = ''uint8'', variable = Some ''a''\<rparr>,
            \<lparr>slot = 1, type = ''uint8'', variable = Some ''b''\<rparr>]"
    by (simp add: sampleEnv_def sample_simps twoSmallDecls_def)
  have h4: "addEvents ?env (getEventsFromABI (dataAbi ?data)) [] knownWorld = (Inr [0, 0], ?w3)"
    by (simp add: service_simps knownWorld_def)
  have h5: "contractAdd ?env
           \<lparr>address = ''0xA'', startingBlock = 100, name = dataName ?data, abi = dataAbi ?data,
            events = [0, 0]\<rparr> ?w3 = (Inl (Thrown ''PersistenceError''), ?w3)"
    by (simp add: service_simps knownWorld_def)
  have h6: "\<And>n u r u'. eventAdd ?env n u = (r, u') \<Longrightarrow>
           set (registry u) \<subseteq> set (registry u') \<and> (\<not> isl r \<longrightarrow> n \<in> set (registry u'))"
    by (auto simp: sampleEnv_def sampleEventAdd_def split: option.splits dest: indexOf_Some_mem)
  have h7: "set (registry ?w3) \<subseteq> set (registry ?w3)" by simp
  have e: "getEventsFromABI ?abi = [''Transfer'', ''Transfer'']"
    by (simp add: getEventsFromABI_def)
  have r: "registry knownWorld = []" by (simp add: knownWorld_def)
  from events_remain_when_contract_persist_fails
    [of ?env knownWorld "''key''" "''0xA''" ?data knownWorld 100 knownWorld _ "[0, 0]" ?w3 _ ?w3
        "\<lambda>u. set (registry u)", OF c1 c2 h1 h2 h3 h4 h5 h6 h7]
  show ?thesis using e r by simp
qed

end
